theory Spec2Isabelle
  imports Complex_Main
begin

section \<open>Numbers, vectors and the tuning constants\<close>

text \<open>
  The room component computes with JavaScript numbers, which are binary64 doubles.
  A finite double is the real number it denotes, and \<open>fl\<close> rounds a real to the
  nearest double, ties to the even significand (53 bits; overflow and the gradual
  underflow below \<open>2 ^ - 1022\<close> are outside the model, and so are \<open>NaN\<close> and the
  infinities, except that a missing field read as a number is kept as \<open>None\<close>).
  Comparisons, \<open>Math.abs\<close>, \<open>Math.min\<close> and \<open>Math.max\<close> are exact. Subtractions
  that feed a comparison, the interpolation \<open>lerp\<close> and the integration of the
  position are rounded as the machine rounds them; \<open>Math.exp\<close>, \<open>Math.pow\<close>,
  \<open>Math.hypot\<close> and the velocity computed from them are kept exact
  (\<^const>\<open>exp\<close>, \<open>powr\<close>, the Euclidean norm).
\<close>

definition expo :: "real \<Rightarrow> int" where
  "expo x = \<lfloor>log 2 \<bar>x\<bar>\<rfloor>"

definition ulp :: "real \<Rightarrow> real" where
  "ulp x = 2 powr (of_int (expo x) - 52)"

text \<open>Round to the nearest integer, ties to even.\<close>

definition rne :: "real \<Rightarrow> int" where
  "rne y = (let f = \<lfloor>y\<rfloor>; d = y - of_int f
            in if d < 1 / 2 then f else if 1 / 2 < d then f + 1
               else if even f then f else f + 1)"

definition fl :: "real \<Rightarrow> real" where
  "fl x = (if x = 0 then 0 else ulp x * of_int (rne (x / ulp x)))"

record Vec =
  vx :: real
  vy :: real

datatype Dir = Up | Down | Left | Right

definition TILE :: real where "TILE = 64"
definition WORLD_W :: real where "WORLD_W = 16"
definition WORLD_H :: real where "WORLD_H = 10"
definition BASE_SPEED :: real where "BASE_SPEED = 180"
definition ACCEL :: real where "ACCEL = 8"
definition DECEL :: real where "DECEL = 10"
definition SEND_RATE_MS :: real where "SEND_RATE_MS = 60"
definition VOICE_RATE_MS :: real where "VOICE_RATE_MS = 140"
definition LERP_REMOTE :: real where "LERP_REMOTE = 12"

definition clamp :: "real \<Rightarrow> real \<Rightarrow> real \<Rightarrow> real" where
  "clamp v mn mx = max mn (min mx v)"

definition lerp :: "real \<Rightarrow> real \<Rightarrow> real \<Rightarrow> real" where
  "lerp a b t = fl (a + fl (fl (b - a) * t))"

definition smoothApproach :: "real \<Rightarrow> real \<Rightarrow> real \<Rightarrow> real \<Rightarrow> real" where
  "smoothApproach current target gain dt =
     (let t = 1 - exp (- gain * dt) in current + (target - current) * t)"

definition hypot :: "real \<Rightarrow> real \<Rightarrow> real" where
  "hypot a b = sqrt (a * a + b * b)"

text \<open>
  \<open>getDesiredVelocity\<close>: the pressed keys win over a pending target; a target closer
  than one unit gives no velocity.
\<close>

definition getDesiredVelocity :: "real \<Rightarrow> Vec \<Rightarrow> string set \<Rightarrow> Vec option \<Rightarrow> Vec" where
  "getDesiredVelocity dt pos keys target =
     (let up = (''arrowup'' \<in> keys \<or> ''w'' \<in> keys);
          down = (''arrowdown'' \<in> keys \<or> ''s'' \<in> keys);
          left = (''arrowleft'' \<in> keys \<or> ''a'' \<in> keys);
          right = (''arrowright'' \<in> keys \<or> ''d'' \<in> keys);
          y0 = (if up then 0 - 1 else 0);
          y1 = (if down then y0 + 1 else y0);
          x0 = (if left then 0 - 1 else 0);
          x1 = (if right then x0 + 1 else x0)
      in if x1 \<noteq> 0 \<or> y1 \<noteq> 0 then
           (let mag = (if hypot x1 y1 = 0 then 1 else hypot x1 y1)
            in \<lparr>vx = (x1 / mag) * BASE_SPEED, vy = (y1 / mag) * BASE_SPEED\<rparr>)
         else
           (case target of
              Some tg \<Rightarrow>
                (let dx = vx tg - vx pos; dy = vy tg - vy pos; dist = hypot dx dy
                 in if dist > 1 then \<lparr>vx = (dx / dist) * BASE_SPEED, vy = (dy / dist) * BASE_SPEED\<rparr>
                    else \<lparr>vx = 0, vy = 0\<rparr>)
            | None \<Rightarrow> \<lparr>vx = 0, vy = 0\<rparr>))"

definition getDirFromVel :: "Vec \<Rightarrow> Dir" where
  "getDirFromVel vel =
     (let ax = \<bar>vx vel\<bar>; ay = \<bar>vy vel\<bar>
      in if ax > ay then (if vx vel \<ge> 0 then Right else Left)
         else if ay > 0 then (if vy vel \<ge> 0 then Down else Up)
         else Down)"


section \<open>Participants, world objects and messages\<close>

record AvatarProfile =
  name :: string
  color :: string
  accessory :: "string option"

text \<open>
  The payload of a \<open>join\<close> or \<open>state\<close> message is a full snapshot; the receiver
  replaces \<open>lastSeen\<close> by its own clock (\<open>{ ...p, lastSeen: now }\<close>), and the
  \<open>state\<close> reply is built without one. The fields \<open>id\<close>, \<open>x\<close>, \<open>y\<close> are named
  \<open>sid\<close>, \<open>sx\<close>, \<open>sy\<close> in a snapshot and \<open>pid\<close>, \<open>px\<close>, \<open>py\<close> in a stored entry.
\<close>

record Snapshot =
  sid :: string
  sprofile :: AvatarProfile
  sx :: real
  sy :: real
  sdir :: Dir
  scamEnabled :: bool
  smicEnabled :: "bool option"
  sspeakingLevel :: "real option"

text \<open>
  A stored entry is a JavaScript object: a field that was never written is
  \<open>undefined\<close>, here \<open>None\<close>. Every path that creates or replaces an entry writes
  \<open>profile\<close>, \<open>camEnabled\<close> and \<open>lastSeen\<close>.
\<close>

record Participant =
  pid :: "string option"
  profile :: AvatarProfile
  px :: "real option"
  py :: "real option"
  dir :: "Dir option"
  camEnabled :: bool
  micEnabled :: "bool option"
  speakingLevel :: "real option"
  lastSeen :: real

datatype ObjType = Lamp | Rug | Board

record 'v WorldObject =
  oid :: string
  otype :: ObjType
  ox :: real
  oy :: real
  ow :: real
  oh :: real
  interactive :: "bool option"
  ostate :: "(string \<rightharpoonup> 'v) option"

record ChatEntry =
  cid :: string
  cname :: string
  ctext :: string
  cts :: real

datatype 'v Message =
    Join Snapshot
  | Leave string
  | Move string real real Dir
  | Chat ChatEntry
  | State Snapshot
  | Avatar string AvatarProfile bool "bool option"
  | Voice string real bool
  | Object string "string \<rightharpoonup> 'v"

section \<open>The room state\<close>

text \<open>
  The refs of the component (\<open>participantsRef\<close>, \<open>displayPosRef\<close>, \<open>posRef\<close>,
  \<open>velRef\<close>, \<open>targetRef\<close>, \<open>voiceLevelRef\<close>, \<open>objectsRef\<close>, \<open>staticDirtyRef\<close>), the
  chat log, the variables local to one run of the main-loop effect (\<open>last\<close>,
  \<open>lastSend\<close>, \<open>lastVoice\<close>, \<open>prevVoiceLevel\<close>; \<open>restart\<close> below starts a new run)
  and, as \<open>outbox\<close>, the messages handed to \<open>channel.post\<close>, oldest first.
  \<open>participants\<close> holds the own keys of the plain object \<open>participantsRef.current\<close>;
  \<open>displayPos\<close> is a \<open>Map\<close>, whose absent coordinates read \<open>undefined\<close>.
\<close>

record Disp =
  dx :: "real option"
  dy :: "real option"

record 'v Room =
  participants :: "string \<rightharpoonup> Participant"
  displayPos :: "string \<rightharpoonup> Disp"
  posRef :: Vec
  velRef :: Vec
  targetRef :: "Vec option"
  voiceLevelRef :: real
  objects :: "'v WorldObject list"
  staticDirty :: bool
  logs :: "ChatEntry list"
  lastTick :: real
  lastSend :: real
  lastVoice :: real
  prevVoiceLevel :: real
  outbox :: "'v Message list"

text \<open>
  What the closures of one render capture from the component: the local id (a ref,
  the same in every render) and the React state.
\<close>

record Ctx =
  myId :: string
  myProfile :: AvatarProfile
  camOn :: bool
  micOn :: bool

section \<open>Reconciliation of inbound messages: \<open>onMsg\<close>\<close>

definition withLastSeen :: "Snapshot \<Rightarrow> real \<Rightarrow> Participant" where
  "withLastSeen p now =
     \<lparr>pid = Some (sid p), profile = sprofile p, px = Some (sx p), py = Some (sy p),
      dir = Some (sdir p), camEnabled = scamEnabled p, micEnabled = smicEnabled p,
      speakingLevel = sspeakingLevel p, lastSeen = now\<rparr>"

text \<open>
  Reading \<open>participantsRef.current[id]\<close>: an own key gives the entry; otherwise a
  name that every plain object inherits from \<open>Object.prototype\<close> gives that
  inherited function or object, which is truthy and has none of an entry's fields;
  any other id gives \<open>undefined\<close>.
\<close>

definition objectProtoKeys :: "string set" where
  "objectProtoKeys =
     {''constructor'', ''__proto__'', ''hasOwnProperty'', ''isPrototypeOf'',
      ''propertyIsEnumerable'', ''toLocaleString'', ''toString'', ''valueOf'',
      ''__defineGetter__'', ''__defineSetter__'', ''__lookupGetter__'', ''__lookupSetter__''}"

datatype Found = Own Participant | Inherited | Missing

definition lookupStore :: "(string \<rightharpoonup> Participant) \<Rightarrow> string \<Rightarrow> Found" where
  "lookupStore ps i =
     (case ps i of
        Some e \<Rightarrow> Own e
      | None \<Rightarrow> if i \<in> objectProtoKeys then Inherited else Missing)"

text \<open>
  Writing \<open>participantsRef.current[id] = e\<close>: without an own key of that name,
  the key \<open>__proto__\<close> is a setter of the prototype and creates no own key (what the
  replaced prototype then lets later reads inherit is outside the model).
\<close>

definition storeSet :: "string \<Rightarrow> Participant \<Rightarrow> (string \<rightharpoonup> Participant) \<Rightarrow> (string \<rightharpoonup> Participant)" where
  "storeSet i e ps = (if i = ''__proto__'' \<and> ps i = None then ps else ps(i \<mapsto> e))"

text \<open>
  \<open>Math.abs(exists.x - p.x) > 0.5\<close>: the difference is rounded; a missing
  coordinate makes it \<open>NaN\<close>, and the comparison false.
\<close>

definition exceeds :: "real option \<Rightarrow> real \<Rightarrow> bool" where
  "exceeds stored m = (case stored of None \<Rightarrow> False | Some v \<Rightarrow> \<bar>fl (v - m)\<bar> > 1 / 2)"

text \<open>\<open>!!v\<close> on an optional boolean.\<close>

definition truthy :: "bool option \<Rightarrow> bool" where
  "truthy b = (case b of None \<Rightarrow> False | Some v \<Rightarrow> v)"

text \<open>\<open>{ ...obj.state, ...state }\<close>: the keys of the message win; a missing state spreads as empty.\<close>

definition mergeState :: "(string \<rightharpoonup> 'v) option \<Rightarrow> (string \<rightharpoonup> 'v) \<Rightarrow> (string \<rightharpoonup> 'v)" where
  "mergeState old st = (case old of None \<Rightarrow> Map.empty | Some m \<Rightarrow> m) ++ st"

text \<open>The first object with the id (\<open>find\<close>) is the one whose state is assigned.\<close>

fun mergeFirst :: "string \<Rightarrow> (string \<rightharpoonup> 'v) \<Rightarrow> 'v WorldObject list \<Rightarrow> 'v WorldObject list" where
  "mergeFirst i st [] = []"
| "mergeFirst i st (ob # obs) =
     (if oid ob = i then ob\<lparr>ostate := Some (mergeState (ostate ob) st)\<rparr> # obs
      else ob # mergeFirst i st obs)"

text \<open>\<open>Math.round\<close> rounds half up.\<close>

definition jsRound :: "real \<Rightarrow> real" where
  "jsRound v = of_int \<lfloor>v + 1 / 2\<rfloor>"

definition worldCenter :: Vec where
  "worldCenter = \<lparr>vx = jsRound ((WORLD_W * TILE) / 2), vy = jsRound ((WORLD_H * TILE) / 2)\<rparr>"

fun onMsg :: "Ctx \<Rightarrow> real \<Rightarrow> 'v Message \<Rightarrow> 'v Room \<Rightarrow> 'v Room" where
  "onMsg c now (Join p) r =
     (let r1 = r\<lparr>participants := storeSet (sid p) (withLastSeen p now) (participants r)\<rparr>
      in if sid p \<noteq> myId c then
           r1\<lparr>outbox := outbox r1 @
                [State \<lparr>sid = myId c, sprofile = myProfile c, sx = vx (posRef r), sy = vy (posRef r),
                        sdir = getDirFromVel (velRef r), scamEnabled = camOn c,
                        smicEnabled = Some (micOn c), sspeakingLevel = Some 0\<rparr>]\<rparr>
         else r1)"
| "onMsg c now (State p) r =
     r\<lparr>participants := storeSet (sid p) (withLastSeen p now) (participants r)\<rparr>"
| "onMsg c now (Move i mx my d) r =
     (case lookupStore (participants r) i of
        Own ex \<Rightarrow>
          if exceeds (px ex) mx \<or> exceeds (py ex) my then
            r\<lparr>participants := storeSet i
                 (ex\<lparr>px := Some mx, py := Some my, dir := Some d, lastSeen := now\<rparr>) (participants r)\<rparr>
          else r
      | Inherited \<Rightarrow> r
      | Missing \<Rightarrow> r)"
| "onMsg c now (Avatar i prof cam mic) r =
     (case lookupStore (participants r) i of
        Own ex \<Rightarrow>
          r\<lparr>participants := storeSet i
               (ex\<lparr>profile := prof, camEnabled := cam, micEnabled := Some (truthy mic), lastSeen := now\<rparr>)
               (participants r)\<rparr>
      | Inherited \<Rightarrow>
          r\<lparr>participants := storeSet i
               \<lparr>pid = None, profile = prof, px = None, py = None, dir = None,
                camEnabled = cam, micEnabled = Some (truthy mic), speakingLevel = None,
                lastSeen = now\<rparr>
               (participants r)\<rparr>
      | Missing \<Rightarrow>
          r\<lparr>participants := storeSet i
               \<lparr>pid = Some i, profile = prof, px = Some (vx worldCenter), py = Some (vy worldCenter),
                dir = Some Down, camEnabled = cam, micEnabled = Some (truthy mic),
                speakingLevel = Some 0, lastSeen = now\<rparr>
               (participants r)\<rparr>)"
| "onMsg c now (Voice i level mic) r =
     (case lookupStore (participants r) i of
        Own ex \<Rightarrow>
          r\<lparr>participants := (participants r)(i \<mapsto>
               ex\<lparr>micEnabled := Some mic, speakingLevel := Some (clamp level 0 1), lastSeen := now\<rparr>)\<rparr>
      | Inherited \<Rightarrow> r
      | Missing \<Rightarrow> r)"
| "onMsg c now (Object i st) r =
     (case find (\<lambda>ob. oid ob = i) (objects r) of
        None \<Rightarrow> r
      | Some ob \<Rightarrow>
          r\<lparr>objects := mergeFirst i st (objects r),
            staticDirty := (if otype ob = Lamp \<or> otype ob = Board then True else staticDirty r)\<rparr>)"
| "onMsg c now (Leave i) r =
     r\<lparr>participants := (participants r)(i := None), displayPos := (displayPos r)(i := None)\<rparr>"
| "onMsg c now (Chat e) r =
     r\<lparr>logs := drop (length (logs r) - 199) (logs r) @ [e]\<rparr>"

text \<open>
  In the \<open>avatar\<close> branch an inherited value is spread into the new entry and
  contributes no field; in the \<open>voice\<close> branch the three assignments land on the
  inherited function or object, outside the store.
\<close>

section \<open>The simulation tick: \<open>step\<close>\<close>

text \<open>
  What one call of \<open>step\<close> reads from outside: the frame timestamp \<open>now\<close>, the wall
  clock \<open>Date.now()\<close>, the pressed keys, and the root mean square of the analyser's
  buffer when a microphone analyser exists (\<open>None\<close> when there is none).
  Pointer smoothing, ripples and drawing are left out: they write nothing that the
  rest of the tick or \<open>onMsg\<close> reads.
\<close>

record Tick =
  tnow :: real
  dateNow :: real
  keys :: "string set"
  rms :: "real option"

definition tickDt :: "real \<Rightarrow> real \<Rightarrow> real" where
  "tickDt now lst = min (fl (1 / 20)) (fl (fl (now - lst) / 1000))"

definition smoothVel :: "Vec \<Rightarrow> Vec \<Rightarrow> real \<Rightarrow> Vec" where
  "smoothVel vel desired dt =
     \<lparr>vx = smoothApproach (vx vel) (vx desired) (if vx desired = 0 then DECEL else ACCEL) dt,
      vy = smoothApproach (vy vel) (vy desired) (if vy desired = 0 then DECEL else ACCEL) dt\<rparr>"

definition integrate :: "Vec \<Rightarrow> Vec \<Rightarrow> real \<Rightarrow> Vec" where
  "integrate pos vel dt =
     \<lparr>vx = clamp (fl (vx pos + fl (vx vel * dt))) (TILE / 2) (WORLD_W * TILE - TILE / 2),
      vy = clamp (fl (vy pos + fl (vy vel * dt))) (TILE / 2) (WORLD_H * TILE - TILE / 2)\<rparr>"

definition arrive :: "Vec option \<Rightarrow> Vec \<Rightarrow> Vec option" where
  "arrive target pos =
     (case target of
        None \<Rightarrow> None
      | Some tg \<Rightarrow>
          (let ddx = fl (vx tg - vx pos); ddy = fl (vy tg - vy pos)
           in if fl (fl (ddx * ddx) + fl (ddy * ddy)) < 9 then None else Some tg))"

text \<open>
  Lines "Update my participant" and the speaking level written by the voice
  analysis. \<open>my\<close> is what the store gives for the local id: the own entry is updated
  in place; an inherited value takes the assignments outside the store.
\<close>

definition updateMine ::
  "string \<Rightarrow> Vec \<Rightarrow> Dir \<Rightarrow> real \<Rightarrow> bool \<Rightarrow> real \<Rightarrow> (string \<rightharpoonup> Participant) \<Rightarrow> (string \<rightharpoonup> Participant)" where
  "updateMine me pos d wall mic level ps =
     (case lookupStore ps me of
        Own my \<Rightarrow>
          ps(me \<mapsto> my\<lparr>px := Some (vx pos), py := Some (vy pos), dir := Some d,
                         micEnabled := Some mic, speakingLevel := Some level, lastSeen := wall\<rparr>)
      | Inherited \<Rightarrow> ps
      | Missing \<Rightarrow> ps)"

definition voiceAnalysis :: "real option \<Rightarrow> real \<Rightarrow> real" where
  "voiceAnalysis r level = (case r of Some v \<Rightarrow> lerp level v (1 / 4) | None \<Rightarrow> 0)"

text \<open>\<open>clamp(voiceLevelRef.current * 2.2, 0, 1)\<close>\<close>

definition normLevel :: "real \<Rightarrow> real" where
  "normLevel level = clamp (fl (level * fl (22 / 10))) 0 1"

text \<open>\<open>Math.abs(lvl - prevVoiceLevel) > 0.03\<close>\<close>

definition levelChanged :: "real \<Rightarrow> real \<Rightarrow> bool" where
  "levelChanged lvl prev = (\<bar>fl (lvl - prev)\<bar> > fl (3 / 100))"

text \<open>
  The mic test of the voice throttle, \<open>!micEnabled !== !my?.micEnabled\<close>, reads
  \<open>my\<close> after "Update my participant" has assigned \<open>my.micEnabled = micEnabled\<close>;
  only without \<open>my\<close> is \<open>my?.micEnabled\<close> \<open>undefined\<close>.
\<close>

definition micDiffers :: "bool \<Rightarrow> Found \<Rightarrow> bool" where
  "micDiffers mic my =
     ((\<not> mic) \<noteq> (case my of Missing \<Rightarrow> True | Inherited \<Rightarrow> \<not> mic | Own q \<Rightarrow> \<not> truthy (micEnabled q)))"

text \<open>\<open>1 - Math.pow(1 - LERP_REMOTE / 60, dt * 60)\<close>, the power taken exactly.\<close>

definition displayFactor :: "real \<Rightarrow> real" where
  "displayFactor dt = fl (1 - (fl (1 - fl (LERP_REMOTE / 60))) powr (fl (dt * 60)))"

text \<open>\<open>displayPosRef.current.get(id) || { x: p.x, y: p.y }\<close>\<close>

definition startDisp :: "Participant \<Rightarrow> Disp option \<Rightarrow> Disp" where
  "startDisp p d = (case d of Some v \<Rightarrow> v | None \<Rightarrow> \<lparr>dx = px p, dy = py p\<rparr>)"

text \<open>\<open>lerp\<close> on coordinates that may be missing: the result is then \<open>NaN\<close>.\<close>

definition olerp :: "real option \<Rightarrow> real option \<Rightarrow> real \<Rightarrow> real option" where
  "olerp a b t =
     (case a of None \<Rightarrow> None | Some u \<Rightarrow> (case b of None \<Rightarrow> None | Some v \<Rightarrow> Some (lerp u v t)))"

definition smoothRemote ::
  "string \<Rightarrow> real \<Rightarrow> (string \<rightharpoonup> Participant) \<Rightarrow> (string \<rightharpoonup> Disp) \<Rightarrow> (string \<rightharpoonup> Disp)" where
  "smoothRemote me dt ps dp =
     (\<lambda>i. case ps i of
             None \<Rightarrow> dp i
           | Some p \<Rightarrow>
               if i = me then Some \<lparr>dx = px p, dy = py p\<rparr>
               else
                 (let disp = startDisp p (dp i)
                  in Some \<lparr>dx = olerp (dx disp) (px p) (displayFactor dt),
                           dy = olerp (dy disp) (py p) (displayFactor dt)\<rparr>))"

definition step :: "Ctx \<Rightarrow> Tick \<Rightarrow> 'v Room \<Rightarrow> 'v Room" where
  "step c tk r =
     (let now = tnow tk;
          dt = tickDt now (lastTick r);
          desired = getDesiredVelocity dt (posRef r) (keys tk) (targetRef r);
          vel = smoothVel (velRef r) desired dt;
          pos = integrate (posRef r) vel dt;
          target = arrive (targetRef r) pos;
          myDir = getDirFromVel vel;
          level = voiceAnalysis (rms tk) (voiceLevelRef r);
          ps = updateMine (myId c) pos myDir (dateNow tk) (micOn c) level (participants r);
          sendMove = (fl (now - lastSend r) > SEND_RATE_MS);
          out1 = (if sendMove then outbox r @ [Move (myId c) (vx pos) (vy pos) myDir] else outbox r);
          checkVoice = (fl (now - lastVoice r) > VOICE_RATE_MS);
          lvl = normLevel level;
          sendVoice = (checkVoice \<and>
             (levelChanged lvl (prevVoiceLevel r) \<or> micDiffers (micOn c) (lookupStore ps (myId c))));
          out2 = (if sendVoice then out1 @ [Voice (myId c) lvl (micOn c)] else out1)
      in r\<lparr>participants := ps,
           displayPos := smoothRemote (myId c) dt ps (displayPos r),
           posRef := pos,
           velRef := vel,
           targetRef := target,
           voiceLevelRef := level,
           lastTick := now,
           lastSend := (if sendMove then now else lastSend r),
           lastVoice := (if checkVoice then now else lastVoice r),
           prevVoiceLevel := (if sendVoice then lvl else prevVoiceLevel r),
           outbox := out2\<rparr>)"


fun isMove :: "'v Message \<Rightarrow> bool" where
  "isMove (Move i mx my d) = True"
| "isMove m = False"


definition posted :: "'v Room \<Rightarrow> 'v Room \<Rightarrow> 'v Message list" where
  "posted r r' = drop (length (outbox r)) (outbox r')"




text \<open>
  The time constant of an exponential approach with rate \<open>gain\<close>: the time after which
  the remaining gap has shrunk by the factor \<open>e\<close>.
\<close>

definition timeConstant :: "real \<Rightarrow> real" where
  "timeConstant gain = 1 / gain"

section \<open>Effects of a render\<close>

text \<open>
  \<open>useRoomChannel\<close> returns a fresh object on every call, so after every render the
  effects that depend on \<open>channel\<close> run again: the microphone effect, the
  subscription and the main loop. A new run of the main loop starts with fresh
  closure variables.
\<close>

definition restart :: "real \<Rightarrow> 'v Room \<Rightarrow> 'v Room" where
  "restart pnow r = r\<lparr>lastTick := pnow, lastSend := 0, lastVoice := 0, prevVoiceLevel := 0\<rparr>"

text \<open>The avatar effect (it runs when \<open>profile\<close>, \<open>camEnabled\<close> or \<open>micEnabled\<close> changed).\<close>

definition avatarEffect :: "Ctx \<Rightarrow> 'v Room \<Rightarrow> 'v Room" where
  "avatarEffect c r =
     (let out = outbox r @ [Avatar (myId c) (myProfile c) (camOn c) (Some (micOn c))]
      in case lookupStore (participants r) (myId c) of
           Own me \<Rightarrow>
             r\<lparr>participants := (participants r)(myId c \<mapsto>
                  me\<lparr>profile := myProfile c, camEnabled := camOn c, micEnabled := Some (micOn c)\<rparr>),
               outbox := out\<rparr>
         | Inherited \<Rightarrow> r\<lparr>outbox := out\<rparr>
         | Missing \<Rightarrow> r\<lparr>outbox := out\<rparr>)"

text \<open>\<open>disableMic\<close>, and the part of \<open>enableMic\<close> that runs once the stream is there.\<close>

definition disableMic :: "Ctx \<Rightarrow> 'v Room \<Rightarrow> 'v Room" where
  "disableMic c r =
     (let out = outbox r @ [Voice (myId c) 0 False]
      in case lookupStore (participants r) (myId c) of
           Own me \<Rightarrow>
             r\<lparr>participants := (participants r)(myId c \<mapsto>
                  me\<lparr>micEnabled := Some False, speakingLevel := Some 0\<rparr>),
               voiceLevelRef := 0, outbox := out\<rparr>
         | Inherited \<Rightarrow> r\<lparr>voiceLevelRef := 0, outbox := out\<rparr>
         | Missing \<Rightarrow> r\<lparr>voiceLevelRef := 0, outbox := out\<rparr>)"

definition enableMicDone :: "Ctx \<Rightarrow> 'v Room \<Rightarrow> 'v Room" where
  "enableMicDone c r =
     (let out = outbox r @ [Voice (myId c) 0 True]
      in case lookupStore (participants r) (myId c) of
           Own me \<Rightarrow>
             r\<lparr>participants := (participants r)(myId c \<mapsto> me\<lparr>micEnabled := Some True\<rparr>),
               outbox := out\<rparr>
         | Inherited \<Rightarrow> r\<lparr>outbox := out\<rparr>
         | Missing \<Rightarrow> r\<lparr>outbox := out\<rparr>)"

text \<open>
  The effects after a render that replaces the captured values \<open>c\<close> by \<open>c'\<close>, in
  the order the component declares them; \<open>pnow\<close> is \<open>performance.now()\<close> when the
  main loop starts again.
\<close>

definition render :: "Ctx \<Rightarrow> Ctx \<Rightarrow> real \<Rightarrow> 'v Room \<Rightarrow> 'v Room" where
  "render c c' pnow r =
     (let r1 = (if micOn c' then r else disableMic c' r);
          r2 = (if myProfile c' \<noteq> myProfile c \<or> camOn c' \<noteq> camOn c \<or> micOn c' \<noteq> micOn c
                then avatarEffect c' r1 else r1)
      in restart pnow r2)"

datatype 'v Event =
    Frame Tick
  | Recv real "'v Message"
  | Render AvatarProfile bool bool real
  | MicReady


text \<open>The frame times at which a run of events posted a \<open>move\<close> from a frame.\<close>

fun moveTimesE :: "Ctx \<Rightarrow> 'v Event list \<Rightarrow> 'v Room \<Rightarrow> real list" where
  "moveTimesE c [] r = []"
| "moveTimesE c (Frame tk # evs) r =
     (if filter isMove (posted r (step c tk r)) \<noteq> [] then [tnow tk] else [])
       @ moveTimesE c evs (step c tk r)"
| "moveTimesE c (Recv now m # evs) r = moveTimesE c evs (onMsg c now m r)"
| "moveTimesE c (Render prof cam mic pnow # evs) r =
     (let c' = \<lparr>myId = myId c, myProfile = prof, camOn = cam, micOn = mic\<rparr>
      in moveTimesE c' evs (render c c' pnow r))"
| "moveTimesE c (MicReady # evs) r = moveTimesE c evs (enableMicDone c r)"




section \<open>The three transports\<close>

text \<open>
  A handler is named by a number; \<open>beh h m w\<close> is what handler \<open>h\<close> does with message
  \<open>m\<close> in world \<open>w\<close>: it returns or it throws, and either way leaves a world behind.
  The world holds the handler sets themselves, so a handler may subscribe or
  unsubscribe handlers while a message is being delivered. A JavaScript \<open>Set\<close> keeps
  insertion order and no duplicates: it is a list here.
\<close>

datatype 'w Outcome = Returned 'w | Threw 'w

record 'a Net =
  supaHandlers :: "nat list"
  supaSubscribed :: bool
  bcHandlers :: "string \<rightharpoonup> nat list"
  lsHandlers :: "nat list"
  lsListening :: bool
  storage :: "string \<rightharpoonup> string"
  app :: 'a

definition setAdd :: "nat \<Rightarrow> nat list \<Rightarrow> nat list" where
  "setAdd h hs = (if h \<in> set hs then hs else hs @ [h])"

definition setDelete :: "nat \<Rightarrow> nat list \<Rightarrow> nat list" where
  "setDelete h hs = removeAll h hs"

text \<open>
  \<open>for (const fn of Array.from(handlers)) { try { fn(data) } catch {} }\<close>: the loop
  runs over the copy \<open>hs\<close>; a throw is caught and the loop goes on. The first
  component of the result lists the handlers that were called, in order.
\<close>

text \<open>The world a call leaves behind, whether it returned or threw.\<close>

definition after :: "'w Outcome \<Rightarrow> 'w" where
  "after out = (case out of Returned w \<Rightarrow> w | Threw w \<Rightarrow> w)"

fun deliver :: "(nat \<Rightarrow> 'm \<Rightarrow> 'w \<Rightarrow> 'w Outcome) \<Rightarrow> nat list \<Rightarrow> 'm \<Rightarrow> 'w \<Rightarrow> nat list \<times> 'w" where
  "deliver beh [] m w = ([], w)"
| "deliver beh (h # hs) m w =
     (case beh h m w of
        Returned w1 \<Rightarrow> (case deliver beh hs m w1 of (called, w2) \<Rightarrow> (h # called, w2))
      | Threw w1 \<Rightarrow> (case deliver beh hs m w1 of (called, w2) \<Rightarrow> (h # called, w2)))"

definition supaSubscribe :: "nat \<Rightarrow> 'a Net \<Rightarrow> 'a Net" where
  "supaSubscribe h w = w\<lparr>supaSubscribed := True, supaHandlers := setAdd h (supaHandlers w)\<rparr>"

definition supaUnsubscribe :: "nat \<Rightarrow> 'a Net \<Rightarrow> 'a Net" where
  "supaUnsubscribe h w = w\<lparr>supaHandlers := setDelete h (supaHandlers w)\<rparr>"

definition supaOnBroadcast ::
  "(nat \<Rightarrow> 'm \<Rightarrow> 'a Net \<Rightarrow> 'a Net Outcome) \<Rightarrow> 'm \<Rightarrow> 'a Net \<Rightarrow> nat list \<times> 'a Net" where
  "supaOnBroadcast beh m w = deliver beh (supaHandlers w) m w"

definition bcSubscribe :: "string \<Rightarrow> nat \<Rightarrow> 'a Net \<Rightarrow> 'a Net" where
  "bcSubscribe key h w =
     w\<lparr>bcHandlers := (bcHandlers w)(key \<mapsto>
          setAdd h (case bcHandlers w key of None \<Rightarrow> [] | Some hs \<Rightarrow> hs))\<rparr>"

definition bcUnsubscribe :: "string \<Rightarrow> nat \<Rightarrow> 'a Net \<Rightarrow> 'a Net" where
  "bcUnsubscribe key h w =
     (case bcHandlers w key of
        None \<Rightarrow> w
      | Some hs \<Rightarrow> w\<lparr>bcHandlers := (bcHandlers w)(key \<mapsto> setDelete h hs)\<rparr>)"

definition bcOnMessage ::
  "(nat \<Rightarrow> 'm \<Rightarrow> 'a Net \<Rightarrow> 'a Net Outcome) \<Rightarrow> string \<Rightarrow> 'm \<Rightarrow> 'a Net \<Rightarrow> nat list \<times> 'a Net" where
  "bcOnMessage beh key m w =
     (case bcHandlers w key of
        None \<Rightarrow> ([], w)
      | Some hs \<Rightarrow> deliver beh hs m w)"

definition startsWith :: "string \<Rightarrow> string \<Rightarrow> bool" where
  "startsWith s pre = (take (length pre) s = pre)"

definition lsSubscribe :: "nat \<Rightarrow> 'a Net \<Rightarrow> 'a Net" where
  "lsSubscribe h w = w\<lparr>lsHandlers := setAdd h (lsHandlers w)\<rparr>"

definition lsUnsubscribe :: "nat \<Rightarrow> 'a Net \<Rightarrow> 'a Net" where
  "lsUnsubscribe h w = w\<lparr>lsHandlers := setDelete h (lsHandlers w)\<rparr>"

text \<open>
  \<open>onStorage\<close>: \<open>ekey\<close> and \<open>enew\<close> are the event's \<open>key\<close> and \<open>newValue\<close> (\<open>None\<close> for
  \<open>null\<close>), \<open>parse\<close> is \<open>JSON.parse\<close> (\<open>None\<close> where it throws, which the outer guard
  catches); after the loop the key is removed from the store.
\<close>

definition lsOnStorage ::
  "(nat \<Rightarrow> 'm \<Rightarrow> 'a Net \<Rightarrow> 'a Net Outcome) \<Rightarrow> (string \<Rightarrow> 'm option) \<Rightarrow> string \<Rightarrow>
   string option \<Rightarrow> string option \<Rightarrow> 'a Net \<Rightarrow> nat list \<times> 'a Net" where
  "lsOnStorage beh parse key ekey enew w =
     (case ekey of
        None \<Rightarrow> ([], w)
      | Some k \<Rightarrow>
          (case enew of
             None \<Rightarrow> ([], w)
           | Some v \<Rightarrow>
               if k = [] \<or> v = [] then ([], w)
               else if \<not> startsWith k (key @ ''_ls_'') then ([], w)
               else
                 (case parse v of
                    None \<Rightarrow> ([], w)
                  | Some m \<Rightarrow>
                      (case deliver beh (lsHandlers w) m w of
                         (called, w1) \<Rightarrow> (called, w1\<lparr>storage := (storage w1)(k := None)\<rparr>)))))"


section \<open>Example states\<close>

definition exProfile :: AvatarProfile where
  "exProfile = \<lparr>name = ''Ana'', color = ''#7c3aed'', accessory = None\<rparr>"

definition exCtx :: Ctx where
  "exCtx = \<lparr>myId = ''me'', myProfile = exProfile, camOn = False, micOn = False\<rparr>"

definition exMe :: Participant where
  "exMe = \<lparr>pid = Some ''me'', profile = exProfile, px = Some 512, py = Some 320, dir = Some Down,
           camEnabled = False, micEnabled = Some False, speakingLevel = Some 0, lastSeen = 1000\<rparr>"

definition exBob :: Participant where
  "exBob = \<lparr>pid = Some ''bob'', profile = exProfile, px = Some 200, py = Some 100, dir = Some Left,
            camEnabled = True, micEnabled = Some True, speakingLevel = Some 0, lastSeen = 900\<rparr>"

definition exLamp :: "bool WorldObject" where
  "exLamp = \<lparr>oid = ''lamp1'', otype = Lamp, ox = 704, oy = 128, ow = 64, oh = 128,
             interactive = Some True, ostate = Some [''on'' \<mapsto> True]\<rparr>"

text \<open>
  The local participant stands still at the world centre, facing down as after
  mounting; Bob is drawn at (100, 60) while his last reported position is (200, 100).
\<close>

definition exRoom :: "bool Room" where
  "exRoom =
     \<lparr>participants = [''me'' \<mapsto> exMe, ''bob'' \<mapsto> exBob],
      displayPos = [''bob'' \<mapsto> \<lparr>dx = Some 100, dy = Some 60\<rparr>],
      posRef = \<lparr>vx = 512, vy = 320\<rparr>,
      velRef = \<lparr>vx = 0, vy = 0\<rparr>,
      targetRef = None,
      voiceLevelRef = 0,
      objects = [exLamp],
      staticDirty = False,
      logs = [],
      lastTick = 1000,
      lastSend = 1000,
      lastVoice = 1000,
      prevVoiceLevel = 0,
      outbox = []\<rparr>"

definition exTick :: Tick where
  "exTick = \<lparr>tnow = 1016, dateNow = 5016, keys = {}, rms = None\<rparr>"

text \<open>A peer echoes an out-of-date snapshot of the local participant.\<close>

definition exEcho :: Snapshot where
  "exEcho = \<lparr>sid = ''me'', sprofile = exProfile, sx = 40, sy = 50, sdir = Left,
             scamEnabled = False, smicEnabled = Some False, sspeakingLevel = Some 0\<rparr>"






text \<open>
  Three subscribed handlers: the first throws, the second unsubscribes the third from
  every transport, the third appends its number to the application state.
\<close>

definition exBeh :: "nat \<Rightarrow> string \<Rightarrow> nat list Net \<Rightarrow> nat list Net Outcome" where
  "exBeh h m w =
     (if h = 1 then Threw w
      else if h = 2 then
        Returned (lsUnsubscribe 3 (bcUnsubscribe ''vm_room_demo'' 3 (supaUnsubscribe 3 w)))
      else Returned (w\<lparr>app := app w @ [h]\<rparr>))"

definition exNet :: "nat list Net" where
  "exNet =
     \<lparr>supaHandlers = [1, 2, 3], supaSubscribed = True,
      bcHandlers = [''vm_room_demo'' \<mapsto> [1, 2, 3]],
      lsHandlers = [1, 2, 3], lsListening = True,
      storage = [''vm_room_demo_ls_17'' \<mapsto> ''hello''],
      app = []\<rparr>"





section \<open>Rounding to the nearest double\<close>

lemma expo_bounds:
  assumes "x \<noteq> 0"
  shows "2 powr of_int (expo x) \<le> \<bar>x\<bar>" "\<bar>x\<bar> < 2 powr (of_int (expo x) + 1)"
proof -
  have p: "0 < \<bar>x\<bar>" using assms by simp
  have "of_int (expo x) \<le> log 2 \<bar>x\<bar>" by (simp add: expo_def)
  then show "2 powr of_int (expo x) \<le> \<bar>x\<bar>"
    using p by (simp add: le_log_iff)
  have "log 2 \<bar>x\<bar> < of_int (expo x) + 1" by (simp add: expo_def)
  then show "\<bar>x\<bar> < 2 powr (of_int (expo x) + 1)"
    using p by (simp add: log_less_iff)
qed

lemma expo_eq:
  assumes "2 powr of_int e \<le> \<bar>x\<bar>" "\<bar>x\<bar> < 2 powr (of_int e + 1)"
  shows "expo x = e"
proof -
  have p: "0 < \<bar>x\<bar>" using assms(1) powr_gt_zero [of 2 "of_int e"] by linarith
  have "of_int e \<le> log 2 \<bar>x\<bar>" using assms(1) p by (simp add: le_log_iff)
  moreover have "log 2 \<bar>x\<bar> < of_int e + 1" using assms(2) p by (simp add: log_less_iff)
  ultimately show ?thesis unfolding expo_def by (simp add: floor_eq_iff)
qed

lemma rne_int: "rne (of_int n) = n"
  by (simp add: rne_def)

lemma rne_bounds: "\<lfloor>y\<rfloor> \<le> rne y" "rne y \<le> \<lfloor>y\<rfloor> + 1"
  by (simp_all add: rne_def Let_def)

lemma rne_floor_eq: "y - of_int \<lfloor>y\<rfloor> < 1 / 2 \<Longrightarrow> rne y = \<lfloor>y\<rfloor>"
  by (simp add: rne_def Let_def)

lemma rne_mono:
  assumes "a \<le> b"
  shows "rne a \<le> rne b"
proof (cases "\<lfloor>a\<rfloor> = \<lfloor>b\<rfloor>")
  case True
  then have "a - of_int \<lfloor>a\<rfloor> \<le> b - of_int \<lfloor>b\<rfloor>" using assms by simp
  then show ?thesis using True by (auto simp: rne_def Let_def)
next
  case False
  then have "\<lfloor>a\<rfloor> < \<lfloor>b\<rfloor>" using assms floor_mono [of a b] by linarith
  then have "rne a \<le> \<lfloor>b\<rfloor>" using rne_bounds(2) [of a] by linarith
  then show ?thesis using rne_bounds(1) [of b] by linarith
qed

lemma rne_neg: "rne (- y) = - rne y"
proof (cases "y = of_int \<lfloor>y\<rfloor>")
  case True
  then obtain n where n: "y = of_int n" by metis
  then have "- y = of_int (- n)" by simp
  then have a: "rne (- y) = - n" by (simp only: rne_int)
  have b: "rne y = n" unfolding n by (rule rne_int)
  from a b show ?thesis by linarith
next
  case False
  then have fl: "\<lfloor>- y\<rfloor> = - \<lfloor>y\<rfloor> - 1"
    by (simp add: floor_minus ceiling_altdef)
  let ?f = "\<lfloor>y\<rfloor>"
  let ?d = "y - of_int ?f"
  have d: "0 < ?d" "?d < 1" using False floor_correct [of y] by linarith+
  have nd: "- y - of_int \<lfloor>- y\<rfloor> = 1 - ?d" by (simp add: fl)
  show ?thesis
    unfolding rne_def Let_def nd unfolding fl using d by auto
qed


lemma fl_0: "fl 0 = 0"
  by (simp add: fl_def)

lemma expo_neg: "expo (- x) = expo x"
  by (simp add: expo_def)

lemma ulp_neg: "ulp (- x) = ulp x"
  by (simp add: ulp_def expo_neg)

lemma ulp_pos: "0 < ulp x"
  by (simp add: ulp_def)

lemma fl_neg: "fl (- x) = - fl x"
proof (cases "x = 0")
  case True
  then show ?thesis by (simp add: fl_def)
next
  case False
  have "rne (- x / ulp x) = - rne (x / ulp x)"
    using rne_neg [of "x / ulp x"] by simp
  with False show ?thesis by (simp add: fl_def ulp_neg)
qed

lemma two_powr_int: "0 \<le> j \<Longrightarrow> (2::real) powr of_int j = of_int (2 ^ nat j)"
  by (simp add: powr_realpow [symmetric])

lemma scaled_bounds:
  assumes "0 < x"
  shows "2 ^ 52 \<le> x / ulp x" "x / ulp x < 2 ^ 53"
proof -
  let ?e = "of_int (expo x) :: real"
  have x: "2 powr ?e \<le> x" "x < 2 powr (?e + 1)"
    using expo_bounds [of x] assms by simp_all
  have u: "ulp x = 2 powr ?e / 2 ^ 52"
    by (simp add: ulp_def powr_diff)
  have h: "2 powr (?e + 1) = 2 * 2 powr ?e"
    by (simp add: powr_add)
  have p: "0 < (2::real) powr ?e" by simp
  show "2 ^ 52 \<le> x / ulp x"
    unfolding u using x(1) p by (simp add: field_simps)
  show "x / ulp x < 2 ^ 53"
    unfolding u using x(2) p h by (simp add: field_simps)
qed

lemma ulp_scale: "ulp x * 2 ^ 52 = 2 powr of_int (expo x)" "ulp x * 2 ^ 53 = 2 powr (of_int (expo x) + 1)"
  by (simp_all add: ulp_def powr_diff powr_add)

lemma rne_scaled:
  assumes "0 < x"
  shows "2 ^ 52 \<le> rne (x / ulp x)" "rne (x / ulp x) \<le> 2 ^ 53"
proof -
  have "rne (of_int (2 ^ 52)) \<le> rne (x / ulp x)"
    using scaled_bounds(1) [OF assms] by (intro rne_mono) simp
  then show "2 ^ 52 \<le> rne (x / ulp x)" by (simp only: rne_int)
  have "rne (x / ulp x) \<le> rne (of_int (2 ^ 53))"
    using scaled_bounds(2) [OF assms] by (intro rne_mono) simp
  then show "rne (x / ulp x) \<le> 2 ^ 53" by (simp only: rne_int)
qed

lemma fl_binade:
  assumes "0 < x"
  shows "2 powr of_int (expo x) \<le> fl x" "fl x \<le> 2 powr (of_int (expo x) + 1)"
proof -
  have f: "fl x = ulp x * of_int (rne (x / ulp x))"
    using assms by (simp add: fl_def)
  have a: "(2 ^ 52 :: real) \<le> of_int (rne (x / ulp x))"
    using rne_scaled(1) [OF assms] by (metis of_int_le_iff of_int_numeral of_int_power)
  have b: "of_int (rne (x / ulp x)) \<le> (2 ^ 53 :: real)"
    using rne_scaled(2) [OF assms] by (metis of_int_le_iff of_int_numeral of_int_power)
  have "ulp x * 2 ^ 52 \<le> fl x" unfolding f using a ulp_pos [of x] by simp
  then show "2 powr of_int (expo x) \<le> fl x" by (simp only: ulp_scale)
  have "fl x \<le> ulp x * 2 ^ 53" unfolding f using b ulp_pos [of x] by simp
  then show "fl x \<le> 2 powr (of_int (expo x) + 1)" by (simp only: ulp_scale)
qed

lemma fl_pos: "0 < x \<Longrightarrow> 0 < fl x"
  using fl_binade(1) [of x] powr_gt_zero [of 2 "of_int (expo x)"] by linarith

lemma fl_mono_pos:
  assumes "0 < x" "x \<le> y"
  shows "fl x \<le> fl y"
proof -
  have y: "0 < y" using assms by simp
  have "expo x \<le> expo y"
    unfolding expo_def using assms by (intro floor_mono) simp
  then consider "expo x = expo y" | "expo x + 1 \<le> expo y" by linarith
  then show ?thesis
  proof cases
    case 1
    then have u: "ulp x = ulp y" by (simp add: ulp_def)
    have "rne (x / ulp y) \<le> rne (y / ulp y)"
      using assms(2) ulp_pos [of y] by (intro rne_mono) (simp add: divide_right_mono)
    then show ?thesis
      using assms(1) y ulp_pos [of y] by (simp add: fl_def u)
  next
    case 2
    then have "(of_int (expo x) + 1 :: real) \<le> of_int (expo y)"
      by (metis of_int_1 of_int_add of_int_le_iff)
    then have "(2::real) powr (of_int (expo x) + 1) \<le> 2 powr of_int (expo y)"
      by simp
    with fl_binade(2) [OF assms(1)] fl_binade(1) [OF y] show ?thesis by linarith
  qed
qed

lemma fl_mono:
  assumes "x \<le> y"
  shows "fl x \<le> fl y"
proof -
  consider "0 < x" | "x \<le> 0" "0 \<le> y" | "y < 0" by linarith
  then show ?thesis
  proof cases
    case 1
    then show ?thesis using assms by (rule fl_mono_pos)
  next
    case 2
    have a: "fl x \<le> 0"
    proof (cases "x = 0")
      case True
      then show ?thesis by (simp add: fl_0)
    next
      case False
      with 2 have "0 < - x" by simp
      from fl_pos [OF this] show ?thesis by (simp add: fl_neg)
    qed
    have b: "0 \<le> fl y"
    proof (cases "y = 0")
      case True
      then show ?thesis by (simp add: fl_0)
    next
      case False
      with 2 have "0 < y" by simp
      from fl_pos [OF this] show ?thesis by simp
    qed
    from a b show ?thesis by linarith
  next
    case 3
    then have "0 < - y" "- y \<le> - x" using assms by simp_all
    from fl_mono_pos [OF this] show ?thesis by (simp add: fl_neg)
  qed
qed


lemma fl_exact_pos:
  assumes m: "0 < m" "m < 2 ^ 53"
  shows "fl (of_int m * 2 powr of_int k) = of_int m * 2 powr of_int k"
proof -
  let ?x = "of_int m * 2 powr of_int k :: real"
  let ?e = "expo ?x"
  have xp: "0 < ?x" using m(1) by simp
  have "?x < 2 ^ 53 * 2 powr of_int k"
    using m(2) by (simp add: of_int_less_numeral_power_cancel_iff)
  also have "\<dots> = 2 powr (of_int k + 53)" by (simp add: powr_add)
  finally have up: "?x < 2 powr (of_int k + 53)" .
  have ne: "?x \<noteq> 0" using xp by linarith
  have "2 powr of_int ?e \<le> ?x"
    using expo_bounds(1) [OF ne] by (simp only: abs_of_pos [OF xp])
  with up have "(2::real) powr of_int ?e < 2 powr (of_int k + 53)" by linarith
  then have "(of_int ?e :: real) < of_int k + 53" by simp
  then have j: "0 \<le> k + 52 - ?e" by linarith
  define j where "j = k + 52 - ?e"
  have j0: "0 \<le> j" using j by (simp add: j_def)
  have "?x / ulp ?x = of_int m * 2 powr (of_int k - (of_int ?e - 52))"
    by (simp add: ulp_def powr_diff)
  also have "of_int k - (of_int ?e - 52) = (of_int j :: real)" by (simp add: j_def)
  also have "of_int m * 2 powr of_int j = (of_int (m * 2 ^ nat j) :: real)"
    using j0 by (simp add: two_powr_int)
  finally have q: "?x / ulp ?x = of_int (m * 2 ^ nat j)" .
  have "fl ?x = ulp ?x * of_int (rne (?x / ulp ?x))"
    using ne by (simp only: fl_def if_False)
  also have "\<dots> = ulp ?x * (?x / ulp ?x)"
    by (simp only: q rne_int)
  also have "\<dots> = ?x" using ulp_pos [of ?x] by simp
  finally show ?thesis .
qed

lemma fl_exact:
  assumes "\<bar>m\<bar> < 2 ^ 53"
  shows "fl (of_int m * 2 powr of_int k) = of_int m * 2 powr of_int k"
proof -
  consider "m = 0" | "0 < m" | "m < 0" by linarith
  then show ?thesis
  proof cases
    case 1
    then show ?thesis by (simp add: fl_0)
  next
    case 2
    with assms show ?thesis by (intro fl_exact_pos) simp_all
  next
    case 3
    with assms have "0 < - m" "- m < 2 ^ 53" by simp_all
    from fl_exact_pos [OF this, of k] have "fl (- (of_int m * 2 powr of_int k)) = - (of_int m * 2 powr of_int k)"
      by simp
    then show ?thesis by (simp add: fl_neg)
  qed
qed

lemma fl_int: "\<bar>m\<bar> < 2 ^ 53 \<Longrightarrow> fl (of_int m) = of_int m"
  using fl_exact [of m 0] by simp



lemma fl_round_down:
  assumes g: "2 ^ 52 \<le> g" "g < 2 ^ 53"
    and d: "0 \<le> d" "d < 2 powr (of_int e - 52) / 2"
  shows "fl (of_int g * 2 powr (of_int e - 52) + d) = of_int g * 2 powr (of_int e - 52)"
proof -
  let ?u = "(2::real) powr (of_int e - 52)"
  let ?x = "of_int g * ?u + d"
  have up: "0 < ?u" by simp
  have "(of_int (2 ^ 52) :: real) \<le> of_int g" using g(1) by (simp only: of_int_le_iff)
  then have gr1: "(2 ^ 52 :: real) \<le> of_int g" by simp
  have "g + 1 \<le> 2 ^ 53" using g(2) by linarith
  then have "(of_int (g + 1) :: real) \<le> of_int (2 ^ 53)" by (simp only: of_int_le_iff)
  then have gr2: "of_int g + 1 \<le> (2 ^ 53 :: real)" by simp
  note gr = gr1 gr2
  have s: "?u * 2 ^ 52 = 2 powr of_int e" "?u * 2 ^ 53 = 2 powr (of_int e + 1)"
    by (simp_all add: powr_diff powr_add)
  have lo: "2 powr of_int e \<le> ?x"
  proof -
    have "2 powr of_int e = ?u * 2 ^ 52" by (rule s(1) [symmetric])
    also have "\<dots> \<le> ?u * of_int g" using gr(1) up by (intro mult_left_mono) simp_all
    also have "\<dots> = of_int g * ?u" by (rule mult.commute)
    finally show ?thesis using d(1) by linarith
  qed
  have hi: "?x < 2 powr (of_int e + 1)"
  proof -
    have "?x < of_int g * ?u + ?u" using d(2) up by linarith
    also have "\<dots> = (of_int g + 1) * ?u" by (simp add: algebra_simps)
    also have "\<dots> \<le> 2 ^ 53 * ?u" using gr(2) up by (intro mult_right_mono) simp_all
    finally show ?thesis using s(2) by (simp add: mult.commute)
  qed
  have xp: "0 < ?x" using lo powr_gt_zero [of 2 "of_int e"] by linarith
  have ex: "expo ?x = e"
    by (rule expo_eq) (use lo hi xp in simp_all)
  have ux: "ulp ?x = ?u" by (simp add: ulp_def ex)
  have q: "?x / ?u = of_int g + d / ?u" using up by (simp add: field_simps)
  have dq: "0 \<le> d / ?u" "d / ?u < 1 / 2" using d up by (simp_all add: field_simps)
  have "of_int g \<le> of_int g + d / ?u" "of_int g + d / ?u < of_int g + 1"
    using dq by linarith+
  then have fq: "\<lfloor>?x / ?u\<rfloor> = g" unfolding q by (rule floor_unique)
  have "rne (?x / ?u) = g"
    using rne_floor_eq [of "?x / ?u"] dq unfolding fq by (simp add: q)
  then show ?thesis using xp by (simp add: fl_def ux)
qed

lemma fl_le_self_bound: "x \<le> of_int m * 2 powr of_int k \<Longrightarrow> \<bar>m\<bar> < 2 ^ 53 \<Longrightarrow> fl x \<le> of_int m * 2 powr of_int k"
  using fl_mono [of x "of_int m * 2 powr of_int k"] fl_exact [of m k] by simp

lemma fl_ge_self_bound: "of_int m * 2 powr of_int k \<le> x \<Longrightarrow> \<bar>m\<bar> < 2 ^ 53 \<Longrightarrow> of_int m * 2 powr of_int k \<le> fl x"
  using fl_mono [of "of_int m * 2 powr of_int k" x] fl_exact [of m k] by simp

lemma move_gate_rounding: "fl (- (1 / 2) - 1 / 2 ^ 60) = - (1 / 2)"
proof -
  have "fl (of_int (2 ^ 52) * 2 powr (of_int (- 1) - 52) + 1 / 2 ^ 60)
      = of_int (2 ^ 52) * 2 powr (of_int (- 1) - 52)"
    by (rule fl_round_down) (simp_all add: powr_diff powr_minus)
  moreover have "of_int (2 ^ 52) * 2 powr (of_int (- 1) - 52) = (1 / 2 :: real)"
    by (simp add: powr_diff powr_minus)
  ultimately have "fl (1 / 2 + 1 / 2 ^ 60) = 1 / 2" by (simp only:)
  then have "fl (- (1 / 2 + 1 / 2 ^ 60)) = - (1 / 2)" by (simp only: fl_neg)
  then show ?thesis by (simp add: algebra_simps)
qed

section \<open>Projections of one tick\<close>

lemma step_velRef:
  "velRef (step c tk r) =
     smoothVel (velRef r)
       (getDesiredVelocity (tickDt (tnow tk) (lastTick r)) (posRef r) (keys tk) (targetRef r))
       (tickDt (tnow tk) (lastTick r))"
  by (simp add: step_def Let_def)

lemma step_posRef:
  "posRef (step c tk r) =
     integrate (posRef r) (velRef (step c tk r)) (tickDt (tnow tk) (lastTick r))"
  by (simp add: step_def Let_def)

lemma step_participants:
  "participants (step c tk r) =
     updateMine (myId c) (posRef (step c tk r)) (getDirFromVel (velRef (step c tk r)))
       (dateNow tk) (micOn c) (voiceAnalysis (rms tk) (voiceLevelRef r)) (participants r)"
  by (simp add: step_def Let_def)




lemma step_posted:
  "posted r (step c tk r) =
     (if fl (tnow tk - lastSend r) > SEND_RATE_MS
      then [Move (myId c) (vx (posRef (step c tk r))) (vy (posRef (step c tk r)))
              (getDirFromVel (velRef (step c tk r)))]
      else []) @
     (if fl (tnow tk - lastVoice r) > VOICE_RATE_MS \<and>
         (levelChanged (normLevel (voiceAnalysis (rms tk) (voiceLevelRef r))) (prevVoiceLevel r) \<or>
          micDiffers (micOn c) (lookupStore (participants (step c tk r)) (myId c)))
      then [Voice (myId c) (normLevel (voiceAnalysis (rms tk) (voiceLevelRef r))) (micOn c)]
      else [])"
  by (simp add: posted_def step_def Let_def)

lemma worldCenter_value: "worldCenter = \<lparr>vx = 512, vy = 320\<rparr>"
  by (simp add: worldCenter_def jsRound_def WORLD_W_def WORLD_H_def TILE_def)

lemma lookupStore_own: "ps i = Some e \<Longrightarrow> lookupStore ps i = Own e"
  by (simp add: lookupStore_def)

lemma lookupStore_own_iff: "lookupStore ps i = Own e \<longleftrightarrow> ps i = Some e"
  by (simp add: lookupStore_def split: option.splits)

section \<open>Object state merge\<close>

lemma mergeState_twice: "mergeState (Some (mergeState old st)) st = mergeState old st"
  by (rule ext) (simp add: mergeState_def map_add_def split: option.splits)

lemma mergeState_disjoint:
  assumes "dom s1 \<inter> dom s2 = {}"
  shows "mergeState (Some (mergeState old s1)) s2 = mergeState (Some (mergeState old s2)) s1"
proof (rule ext)
  fix k
  from assms have "s1 k = None \<or> s2 k = None" by auto
  then show "mergeState (Some (mergeState old s1)) s2 k = mergeState (Some (mergeState old s2)) s1 k"
    by (auto simp: mergeState_def map_add_def split: option.splits)
qed

lemma mergeFirst_twice: "mergeFirst i st (mergeFirst i st obs) = mergeFirst i st obs"
  by (induction obs) (simp_all add: mergeState_twice)

lemma find_mergeFirst_None:
  "find (\<lambda>ob. oid ob = i) obs = None \<Longrightarrow> find (\<lambda>ob. oid ob = i) (mergeFirst j st obs) = None"
  by (induction obs) (auto split: if_splits)

lemma find_mergeFirst_Some:
  "find (\<lambda>ob. oid ob = i) obs = Some ob \<Longrightarrow>
   \<exists>ob'. find (\<lambda>ob. oid ob = i) (mergeFirst j st obs) = Some ob' \<and> otype ob' = otype ob"
  by (induction obs) (auto split: if_splits)

lemma mergeFirst_commute:
  "i \<noteq> j \<or> dom s1 \<inter> dom s2 = {} \<Longrightarrow>
   mergeFirst j s2 (mergeFirst i s1 obs) = mergeFirst i s1 (mergeFirst j s2 obs)"
proof (induction obs)
  case Nil
  show ?case by simp
next
  case (Cons a obs)
  show ?case
  proof (cases "i = j")
    case True
    with Cons.prems have d: "dom s1 \<inter> dom s2 = {}" by simp
    from mergeState_disjoint [OF d, of "ostate a"] Cons True show ?thesis by simp
  next
    case False
    with Cons show ?thesis by auto
  qed
qed

lemma onMsg_Object_None:
  "find (\<lambda>ob. oid ob = i) (objects r) = None \<Longrightarrow> onMsg c now (Object i st) r = r"
  by simp

lemma onMsg_Object_Some:
  "find (\<lambda>ob. oid ob = i) (objects r) = Some ob \<Longrightarrow>
   onMsg c now (Object i st) r =
     r\<lparr>objects := mergeFirst i st (objects r),
       staticDirty := (if otype ob = Lamp \<or> otype ob = Board then True else staticDirty r)\<rparr>"
  by simp

lemma onMsg_Object_twice:
  "onMsg c now' (Object i st) (onMsg c now (Object i st) r) = onMsg c now (Object i st) r"
proof (cases "find (\<lambda>ob. oid ob = i) (objects r)")
  case None
  then show ?thesis by (simp add: onMsg_Object_None)
next
  case (Some ob)
  from find_mergeFirst_Some [OF Some, of i st] obtain ob'
    where f: "find (\<lambda>ob. oid ob = i) (mergeFirst i st (objects r)) = Some ob'"
      and t: "otype ob' = otype ob" by blast
  let ?r1 = "onMsg c now (Object i st) r"
  have r1: "?r1 = r\<lparr>objects := mergeFirst i st (objects r),
       staticDirty := (if otype ob = Lamp \<or> otype ob = Board then True else staticDirty r)\<rparr>"
    using Some by (rule onMsg_Object_Some)
  have f1: "find (\<lambda>ob. oid ob = i) (objects ?r1) = Some ob'"
    using f by (simp only: r1) simp
  show ?thesis
    by (simp only: onMsg_Object_Some [OF f1]) (simp only: r1, simp add: t mergeFirst_twice)
qed

lemma onMsg_Object_commute:
  assumes d: "i \<noteq> j \<or> dom s1 \<inter> dom s2 = {}"
  shows "onMsg c now' (Object j s2) (onMsg c now (Object i s1) r) =
         onMsg c now (Object i s1) (onMsg c now' (Object j s2) r)"
proof -
  let ?fi = "find (\<lambda>ob. oid ob = i) (objects r)"
  let ?fj = "find (\<lambda>ob. oid ob = j) (objects r)"
  have comm: "mergeFirst j s2 (mergeFirst i s1 (objects r)) = mergeFirst i s1 (mergeFirst j s2 (objects r))"
    using d by (rule mergeFirst_commute)
  show ?thesis
  proof (cases ?fi)
    case None
    note ni = this
    show ?thesis
    proof (cases ?fj)
      case None
      with ni show ?thesis by (simp add: onMsg_Object_None)
    next
      case (Some b)
      have "find (\<lambda>ob. oid ob = i) (objects (onMsg c now' (Object j s2) r)) = None"
        using find_mergeFirst_None [OF ni, of j s2] by (simp only: onMsg_Object_Some [OF Some]) simp
      then show ?thesis using ni by (simp only: onMsg_Object_None)
    qed
  next
    case (Some a)
    note si = this
    let ?r1 = "onMsg c now (Object i s1) r"
    have r1: "?r1 = r\<lparr>objects := mergeFirst i s1 (objects r),
       staticDirty := (if otype a = Lamp \<or> otype a = Board then True else staticDirty r)\<rparr>"
      using si by (rule onMsg_Object_Some)
    show ?thesis
    proof (cases ?fj)
      case None
      have "find (\<lambda>ob. oid ob = j) (objects ?r1) = None"
        using find_mergeFirst_None [OF None, of i s1] by (simp only: r1) simp
      then show ?thesis using None by (simp only: onMsg_Object_None)
    next
      case (Some b)
      let ?r2 = "onMsg c now' (Object j s2) r"
      have r2: "?r2 = r\<lparr>objects := mergeFirst j s2 (objects r),
         staticDirty := (if otype b = Lamp \<or> otype b = Board then True else staticDirty r)\<rparr>"
        using Some by (rule onMsg_Object_Some)
      from find_mergeFirst_Some [OF Some, of i s1] obtain b'
        where fb: "find (\<lambda>ob. oid ob = j) (objects ?r1) = Some b'" and tb: "otype b' = otype b"
        by (simp only: r1) auto
      from find_mergeFirst_Some [OF si, of j s2] obtain a'
        where fa: "find (\<lambda>ob. oid ob = i) (objects ?r2) = Some a'" and ta: "otype a' = otype a"
        by (simp only: r2) auto
      show ?thesis
        by (simp only: onMsg_Object_Some [OF fb] onMsg_Object_Some [OF fa])
           (simp only: r1 r2, simp add: ta tb comm)
    qed
  qed
qed

text \<open>
  Claim C9. Applying the same \<open>object\<close> message twice gives the same state map, and
  the same room, as applying it once; two \<open>object\<close> messages whose state maps have
  disjoint key sets give the same result in either order.
\<close>

theorem object_merge_idempotent_commutative:
  "mergeState (Some (mergeState old st)) st = mergeState old st \<and>
   onMsg c now' (Object i st) (onMsg c now (Object i st) r) = onMsg c now (Object i st) r \<and>
   (dom s1 \<inter> dom s2 = {} \<longrightarrow>
      mergeState (Some (mergeState old s1)) s2 = mergeState (Some (mergeState old s2)) s1 \<and>
      onMsg c now' (Object j s2) (onMsg c now (Object i s1) r) =
      onMsg c now (Object i s1) (onMsg c now' (Object j s2) r))"
  using mergeState_twice [of old st] onMsg_Object_twice [of c now' i st now r]
    mergeState_disjoint [of s1 s2 old] onMsg_Object_commute [of i j s1 s2 c now' now r]
  by blast

theorem object_merge_idempotent_commutative_witness:
  "dom [''on'' \<mapsto> False] \<inter> dom [''dim'' \<mapsto> True] = {} \<and>
   mergeState (Some (mergeState (ostate exLamp) [''on'' \<mapsto> False])) [''dim'' \<mapsto> True] =
   mergeState (Some (mergeState (ostate exLamp) [''dim'' \<mapsto> True])) [''on'' \<mapsto> False] \<and>
   onMsg exCtx 2001 (Object ''lamp1'' [''dim'' \<mapsto> True])
     (onMsg exCtx 2000 (Object ''lamp1'' [''on'' \<mapsto> False]) exRoom) =
   onMsg exCtx 2000 (Object ''lamp1'' [''on'' \<mapsto> False])
     (onMsg exCtx 2001 (Object ''lamp1'' [''dim'' \<mapsto> True]) exRoom)"
proof -
  have d: "dom [''on'' \<mapsto> False] \<inter> dom [''dim'' \<mapsto> True] = {}"
    by simp
  from object_merge_idempotent_commutative
    [of "ostate exLamp" "[''on'' \<mapsto> False]" exCtx 2001 "''lamp1''" 2000 exRoom
        "[''on'' \<mapsto> False]" "[''dim'' \<mapsto> True]" "''lamp1''"] d
  show ?thesis by blast
qed

section \<open>Velocity smoothing\<close>

lemma smoothApproach_gap:
  "smoothApproach cur tgt g dt - tgt = (cur - tgt) * exp (- g * dt)"
  by (simp add: smoothApproach_def Let_def algebra_simps)

lemma timeConstant_gap:
  "g \<noteq> 0 \<Longrightarrow> smoothApproach cur tgt g (timeConstant g) - tgt = (cur - tgt) * exp (- 1)"
  by (simp add: smoothApproach_gap timeConstant_def)





section \<open>The frame of \<open>move\<close>\<close>

lemma exceeds_Some: "exceeds (Some v) m \<longleftrightarrow> \<bar>fl (v - m)\<bar> > 1 / 2"
  by (simp add: exceeds_def)

lemma fl_abs_half: "\<bar>v\<bar> \<le> 1 / 2 \<Longrightarrow> \<bar>fl v\<bar> \<le> 1 / 2"
proof -
  assume a: "\<bar>v\<bar> \<le> 1 / 2"
  have h: "fl (1 / 2) = 1 / 2" using fl_exact [of 1 "- 1"] by (simp add: powr_minus)
  have "fl v \<le> fl (1 / 2)" using a by (intro fl_mono) linarith
  moreover have "fl (- (1 / 2)) \<le> fl v" using a by (intro fl_mono) linarith
  ultimately show ?thesis using h by (simp add: fl_neg abs_le_iff)
qed

lemma storeSet_own: "ps i = Some e \<Longrightarrow> storeSet i e' ps = ps(i \<mapsto> e')"
  by (simp add: storeSet_def)

text \<open>
  Claim C7. For a \<open>move\<close> message whose id the store holds, with a stored position:
  the deltas are the differences as the program computes them, in doubles. When both
  are within the epsilon 0.5 nothing changes, the entry's \<open>dir\<close> and \<open>lastSeen\<close>
  included (so also when the exact differences are within it); when one of them
  exceeds it, the entry gets the message's \<open>x\<close>, \<open>y\<close> and \<open>dir\<close> and the current
  time as \<open>lastSeen\<close>, and keeps every other field.
\<close>

theorem move_known_frame:
  assumes "participants r i = Some ex" "px ex = Some x" "py ex = Some y"
  shows "(\<bar>fl (x - mx)\<bar> \<le> 1 / 2 \<and> \<bar>fl (y - my)\<bar> \<le> 1 / 2 \<longrightarrow> onMsg c now (Move i mx my d) r = r) \<and>
         (\<bar>x - mx\<bar> \<le> 1 / 2 \<and> \<bar>y - my\<bar> \<le> 1 / 2 \<longrightarrow> onMsg c now (Move i mx my d) r = r) \<and>
         (\<bar>fl (x - mx)\<bar> > 1 / 2 \<or> \<bar>fl (y - my)\<bar> > 1 / 2 \<longrightarrow>
            (\<exists>e. participants (onMsg c now (Move i mx my d) r) i = Some e \<and>
                 px e = Some mx \<and> py e = Some my \<and> dir e = Some d \<and> lastSeen e = now \<and>
                 pid e = pid ex \<and> profile e = profile ex \<and> camEnabled e = camEnabled ex \<and>
                 micEnabled e = micEnabled ex \<and> speakingLevel e = speakingLevel ex))"
proof -
  have l: "lookupStore (participants r) i = Own ex"
    using assms(1) by (rule lookupStore_own)
  have a: "\<bar>fl (x - mx)\<bar> \<le> 1 / 2 \<and> \<bar>fl (y - my)\<bar> \<le> 1 / 2 \<longrightarrow> onMsg c now (Move i mx my d) r = r"
    using assms by (auto simp: l exceeds_Some)
  have b: "\<bar>x - mx\<bar> \<le> 1 / 2 \<and> \<bar>y - my\<bar> \<le> 1 / 2 \<longrightarrow> onMsg c now (Move i mx my d) r = r"
    using a fl_abs_half [of "x - mx"] fl_abs_half [of "y - my"] by blast
  have c: "\<bar>fl (x - mx)\<bar> > 1 / 2 \<or> \<bar>fl (y - my)\<bar> > 1 / 2 \<longrightarrow>
            (\<exists>e. participants (onMsg c now (Move i mx my d) r) i = Some e \<and>
                 px e = Some mx \<and> py e = Some my \<and> dir e = Some d \<and> lastSeen e = now \<and>
                 pid e = pid ex \<and> profile e = profile ex \<and> camEnabled e = camEnabled ex \<and>
                 micEnabled e = micEnabled ex \<and> speakingLevel e = speakingLevel ex)"
    using assms by (auto simp: l exceeds_Some storeSet_own)
  from a b c show ?thesis by blast
qed

lemma fl_small_int: "fl 0 = 0" "fl 1 = 1" "fl 100 = 100" "fl 472 = 472" "fl 270 = 270" "fl 16 = 16" "fl 8 = 8"
  using fl_int [of 0] fl_int [of 1] fl_int [of 100] fl_int [of 472] fl_int [of 270] fl_int [of 16] fl_int [of 8]
  by simp_all

theorem move_known_frame_witness:
  "participants exRoom ''bob'' = Some exBob \<and> px exBob = Some 200 \<and> py exBob = Some 100 \<and>
   \<bar>fl (200 - 200)\<bar> \<le> 1 / 2 \<and> \<bar>fl (100 - 100)\<bar> \<le> 1 / 2 \<and>
   onMsg exCtx 2000 (Move ''bob'' 200 100 Up) exRoom = exRoom \<and>
   \<bar>fl (200 - 100)\<bar> > 1 / 2 \<and>
   (\<exists>e. participants (onMsg exCtx 2000 (Move ''bob'' 100 100 Up) exRoom) ''bob'' = Some e \<and>
        px e = Some 100 \<and> py e = Some 100 \<and> dir e = Some Up \<and> lastSeen e = 2000 \<and>
        pid e = Some ''bob'' \<and> profile e = exProfile \<and> camEnabled e \<and>
        micEnabled e = Some True \<and> speakingLevel e = Some 0)"
proof -
  have bob: "participants exRoom ''bob'' = Some exBob"
    by (simp add: exRoom_def)
  have xy: "px exBob = Some 200" "py exBob = Some 100"
    by (simp_all add: exBob_def)
  have near: "\<bar>fl (200 - 200)\<bar> \<le> 1 / 2 \<and> \<bar>fl (100 - 100)\<bar> \<le> 1 / 2"
    by (simp add: fl_small_int)
  have far: "\<bar>fl (200 - 100)\<bar> > 1 / 2"
    by (simp add: fl_small_int)
  from move_known_frame [OF bob xy, of 200 100 exCtx 2000 Up] near
  have a: "onMsg exCtx 2000 (Move ''bob'' 200 100 Up) exRoom = exRoom"
    by blast
  from move_known_frame [OF bob xy, of 100 100 exCtx 2000 Up] far
  have b: "\<exists>e. participants (onMsg exCtx 2000 (Move ''bob'' 100 100 Up) exRoom) ''bob'' = Some e \<and>
        px e = Some 100 \<and> py e = Some 100 \<and> dir e = Some Up \<and> lastSeen e = 2000 \<and>
        pid e = Some ''bob'' \<and> profile e = exProfile \<and> camEnabled e \<and>
        micEnabled e = Some True \<and> speakingLevel e = Some 0"
    by (simp add: exBob_def)
  from bob xy near far a b show ?thesis by blast
qed

text \<open>
  Where rounding decides: the stored x is -0.5 and the message's x is \<open>2 ^ - 60\<close>.
  The exact difference exceeds 0.5, the computed one is 0.5, and the move is ignored.
\<close>

lemma move_gate_half_way:
  assumes "participants r i = Some ex" "px ex = Some (- (1 / 2))" "py ex = Some y"
  shows "onMsg c now (Move i (1 / 2 ^ 60) y d) r = r"
proof -
  have a: "\<not> exceeds (Some (- (1 / 2))) (1 / 2 ^ 60)"
    unfolding exceeds_Some move_gate_rounding by simp
  have b: "\<not> exceeds (Some y) y"
    by (simp add: exceeds_Some fl_0)
  show ?thesis
    using assms a b by (simp add: lookupStore_own)
qed

section \<open>Reconciliation: unknown ids and \<open>lastSeen\<close>\<close>

lemma lookupStore_none: "lookupStore ps i \<noteq> Own e' \<Longrightarrow> lookupStore ps i = Missing \<or> lookupStore ps i = Inherited \<Longrightarrow> ps i = None"
  by (auto simp: lookupStore_def split: option.splits)

lemma lookupStore_Missing: "lookupStore ps i = Missing \<Longrightarrow> ps i = None \<and> i \<notin> objectProtoKeys"
  by (auto simp: lookupStore_def split: option.splits if_splits)

lemma lookupStore_Inherited: "lookupStore ps i = Inherited \<Longrightarrow> ps i = None \<and> i \<in> objectProtoKeys"
  by (auto simp: lookupStore_def split: option.splits if_splits)

lemma proto_in_keys: "''__proto__'' \<in> objectProtoKeys"
  by (simp add: objectProtoKeys_def)

lemma constructor_in_keys: "''constructor'' \<in> objectProtoKeys"
  by (simp add: objectProtoKeys_def)

text \<open>
  What holds of Claim C6: for an id that the store neither holds nor inherits, \<open>move\<close>
  and \<open>voice\<close> leave the room as it is and \<open>avatar\<close> creates an entry at the world
  centre (512, 320); for an inherited name \<open>move\<close> and \<open>voice\<close> still leave the
  store as it is; and each message that is applied sets \<open>lastSeen\<close> to the current time.
\<close>

lemma unknown_ids:
  assumes "lookupStore (participants r) i = Missing"
  shows "onMsg c now (Move i mx my d) r = r" "onMsg c now (Voice i level mic) r = r"
    "\<exists>e. participants (onMsg c now (Avatar i prof cam am) r) i = Some e \<and>
         px e = Some 512 \<and> py e = Some 320"
proof -
  from lookupStore_Missing [OF assms] proto_in_keys have n: "i \<noteq> ''__proto__''" by auto
  show "onMsg c now (Move i mx my d) r = r" "onMsg c now (Voice i level mic) r = r"
    by (simp_all add: assms)
  show "\<exists>e. participants (onMsg c now (Avatar i prof cam am) r) i = Some e \<and>
         px e = Some 512 \<and> py e = Some 320"
    using n by (simp add: assms storeSet_def worldCenter_value)
qed

lemma inherited_ids:
  assumes "lookupStore (participants r) i = Inherited"
  shows "onMsg c now (Move i mx my d) r = r" "onMsg c now (Voice i level mic) r = r"
  by (simp_all add: assms)

lemma applied_sets_lastSeen:
  "sid p \<noteq> ''__proto__'' \<Longrightarrow>
      map_option lastSeen (participants (onMsg c now (Join p) r) (sid p)) = Some now \<and>
      map_option lastSeen (participants (onMsg c now (State p) r) (sid p)) = Some now"
  "i \<noteq> ''__proto__'' \<Longrightarrow>
      map_option lastSeen (participants (onMsg c now (Avatar i prof cam am) r) i) = Some now"
  "participants r i = Some ex \<Longrightarrow>
      map_option lastSeen (participants (onMsg c now (Voice i level mic) r) i) = Some now"
  "participants r i = Some ex \<Longrightarrow> exceeds (px ex) mx \<or> exceeds (py ex) my \<Longrightarrow>
      map_option lastSeen (participants (onMsg c now (Move i mx my d) r) i) = Some now"
proof -
  show "sid p \<noteq> ''__proto__'' \<Longrightarrow>
      map_option lastSeen (participants (onMsg c now (Join p) r) (sid p)) = Some now \<and>
      map_option lastSeen (participants (onMsg c now (State p) r) (sid p)) = Some now"
    by (simp add: Let_def storeSet_def withLastSeen_def)
  show "i \<noteq> ''__proto__'' \<Longrightarrow>
      map_option lastSeen (participants (onMsg c now (Avatar i prof cam am) r) i) = Some now"
    by (cases "lookupStore (participants r) i") (simp_all add: storeSet_def)
  show "participants r i = Some ex \<Longrightarrow>
      map_option lastSeen (participants (onMsg c now (Voice i level mic) r) i) = Some now"
    by (simp add: lookupStore_own)
  show "participants r i = Some ex \<Longrightarrow> exceeds (px ex) mx \<or> exceeds (py ex) my \<Longrightarrow>
      map_option lastSeen (participants (onMsg c now (Move i mx my d) r) i) = Some now"
    by (auto simp: lookupStore_own storeSet_own)
qed

lemma exRoom_constructor: "lookupStore (participants exRoom) ''constructor'' = Inherited"
proof -
  have "participants exRoom ''constructor'' = None" by (simp add: exRoom_def)
  then show ?thesis by (simp add: lookupStore_def constructor_in_keys)
qed

text \<open>
  Claim C6 at the input where the code departs from it. The store does not hold the
  id \<open>constructor\<close>, but reading it from the plain object gives the inherited
  \<open>Object\<close> function, so the \<open>avatar\<close> branch for a known id runs: the new entry is
  the spread of that function plus \<open>profile\<close>, \<open>camEnabled\<close>, \<open>micEnabled\<close> and
  \<open>lastSeen\<close>, with no position and no id.
\<close>

theorem avatar_inherited_id_no_position:
  "participants exRoom ''constructor'' = None \<and>
   lookupStore (participants exRoom) ''constructor'' = Inherited \<and>
   (\<exists>e. participants (onMsg exCtx 2000 (Avatar ''constructor'' exProfile True None) exRoom) ''constructor''
          = Some e \<and> px e = None \<and> py e = None \<and> pid e = None)"
proof -
  have n: "participants exRoom ''constructor'' = None" by (simp add: exRoom_def)
  have "\<exists>e. participants (onMsg exCtx 2000 (Avatar ''constructor'' exProfile True None) exRoom) ''constructor''
          = Some e \<and> px e = None \<and> py e = None \<and> pid e = None"
    by (simp add: exRoom_constructor storeSet_def)
  with n exRoom_constructor show ?thesis by blast
qed

section \<open>The local entry and inbound messages\<close>

lemma onMsg_posRef: "posRef (onMsg c now m r) = posRef r"
  by (cases m) (auto simp: Let_def split: option.splits Found.splits)

lemma updateMine_position:
  "ps me = Some e \<Longrightarrow>
   map_option (\<lambda>e. (px e, py e)) (updateMine me pos d wall mic level ps me)
     = Some (Some (vx pos), Some (vy pos))"
  by (simp add: updateMine_def lookupStore_def)

lemma updateMine_absent: "ps me = None \<Longrightarrow> updateMine me pos d wall mic level ps = ps"
  by (simp add: updateMine_def lookupStore_def)

text \<open>
  Claim C4, as the code has it. With a local entry in the store: an \<open>avatar\<close> or
  \<open>voice\<close> message carrying the local id keeps the entry's position, and \<open>object\<close>
  and \<open>chat\<close> messages do not touch the store; a \<open>join\<close> or \<open>state\<close> message
  carrying the local id replaces the whole entry by the payload with the current time
  as \<open>lastSeen\<close>; a \<open>move\<close> message carrying it overwrites \<open>x\<close>, \<open>y\<close>, \<open>dir\<close> and
  \<open>lastSeen\<close> when a computed delta exceeds 0.5, and changes nothing otherwise; a
  \<open>leave\<close> message carrying it deletes the entry, and the next tick does not create
  it again. No message changes the simulated position \<open>posRef\<close>, and whenever the
  local entry is there after the message, the next tick writes the simulated position
  into it.
\<close>

theorem local_position_after_messages:
  assumes "participants r (myId c) = Some me"
  shows
   "map_option (\<lambda>e. (px e, py e)) (participants (onMsg c now (Avatar (myId c) prof cam am) r) (myId c))
      = Some (px me, py me) \<and>
    map_option (\<lambda>e. (px e, py e)) (participants (onMsg c now (Voice (myId c) level mic) r) (myId c))
      = Some (px me, py me) \<and>
    participants (onMsg c now (Object i st) r) = participants r \<and>
    participants (onMsg c now (Chat ce) r) = participants r \<and>
    (sid p = myId c \<longrightarrow>
       participants (onMsg c now (Join p) r) (myId c) = Some (withLastSeen p now) \<and>
       participants (onMsg c now (State p) r) (myId c) = Some (withLastSeen p now)) \<and>
    (exceeds (px me) mx \<or> exceeds (py me) my \<longrightarrow>
       participants (onMsg c now (Move (myId c) mx my d) r) (myId c)
         = Some (me\<lparr>px := Some mx, py := Some my, dir := Some d, lastSeen := now\<rparr>)) \<and>
    (\<not> exceeds (px me) mx \<and> \<not> exceeds (py me) my \<longrightarrow>
       onMsg c now (Move (myId c) mx my d) r = r) \<and>
    participants (onMsg c now (Leave (myId c)) r) (myId c) = None \<and>
    participants (step c tk (onMsg c now (Leave (myId c)) r)) (myId c) = None \<and>
    (\<forall>m. posRef (onMsg c now m r) = posRef r \<and>
       (participants (onMsg c now m r) (myId c) \<noteq> None \<longrightarrow>
          map_option (\<lambda>e. (px e, py e)) (participants (step c tk (onMsg c now m r)) (myId c))
            = Some (Some (vx (posRef (step c tk (onMsg c now m r)))),
                    Some (vy (posRef (step c tk (onMsg c now m r)))))))"
proof -
  have l: "lookupStore (participants r) (myId c) = Own me"
    using assms by (rule lookupStore_own)
  have a: "map_option (\<lambda>e. (px e, py e)) (participants (onMsg c now (Avatar (myId c) prof cam am) r) (myId c))
      = Some (px me, py me)"
    using assms by (simp add: l storeSet_own)
  have b: "map_option (\<lambda>e. (px e, py e)) (participants (onMsg c now (Voice (myId c) level mic) r) (myId c))
      = Some (px me, py me)"
    by (simp add: l)
  have c: "participants (onMsg c now (Object i st) r) = participants r"
    by (simp split: option.splits)
  have d: "participants (onMsg c now (Chat ce) r) = participants r"
    by simp
  have e: "sid p = myId c \<longrightarrow>
       participants (onMsg c now (Join p) r) (myId c) = Some (withLastSeen p now) \<and>
       participants (onMsg c now (State p) r) (myId c) = Some (withLastSeen p now)"
    using assms by (auto simp: Let_def storeSet_own)
  have f: "exceeds (px me) mx \<or> exceeds (py me) my \<longrightarrow>
       participants (onMsg c now (Move (myId c) mx my d) r) (myId c)
         = Some (me\<lparr>px := Some mx, py := Some my, dir := Some d, lastSeen := now\<rparr>)"
    using assms by (auto simp: l storeSet_own)
  have g: "\<not> exceeds (px me) mx \<and> \<not> exceeds (py me) my \<longrightarrow>
       onMsg c now (Move (myId c) mx my d) r = r"
    by (simp add: l)
  have h: "participants (onMsg c now (Leave (myId c)) r) (myId c) = None"
    by simp
  have h': "participants (step c tk (onMsg c now (Leave (myId c)) r)) (myId c) = None"
    using updateMine_absent [of "participants (onMsg c now (Leave (myId c)) r)" "myId c", OF h] h
    by (simp only: step_participants)
  have k: "\<forall>m. posRef (onMsg c now m r) = posRef r \<and>
       (participants (onMsg c now m r) (myId c) \<noteq> None \<longrightarrow>
          map_option (\<lambda>e. (px e, py e)) (participants (step c tk (onMsg c now m r)) (myId c))
            = Some (Some (vx (posRef (step c tk (onMsg c now m r)))),
                    Some (vy (posRef (step c tk (onMsg c now m r))))))"
  proof (intro allI conjI impI)
    fix m :: "'a Message"
    show "posRef (onMsg c now m r) = posRef r" by (rule onMsg_posRef)
  next
    fix m :: "'a Message"
    assume "participants (onMsg c now m r) (myId c) \<noteq> None"
    then obtain e where e: "participants (onMsg c now m r) (myId c) = Some e" by auto
    show "map_option (\<lambda>e. (px e, py e)) (participants (step c tk (onMsg c now m r)) (myId c))
            = Some (Some (vx (posRef (step c tk (onMsg c now m r)))),
                    Some (vy (posRef (step c tk (onMsg c now m r)))))"
      unfolding step_participants
      by (rule updateMine_position [of "participants (onMsg c now m r)" "myId c", OF e])
  qed
  from a b c d e f g h h' k show ?thesis by blast
qed



lemma exRoom_echo_pos:
  "posRef (step exCtx exTick (onMsg exCtx 2000 (State exEcho) exRoom)) = \<lparr>vx = 512, vy = 320\<rparr>"
proof -
  have v: "velRef (step exCtx exTick (onMsg exCtx 2000 (State exEcho) exRoom)) = \<lparr>vx = 0, vy = 0\<rparr>"
    by (simp add: step_velRef exRoom_def exTick_def smoothVel_def getDesiredVelocity_def
        smoothApproach_def Let_def)
  have f: "fl 512 = 512" "fl 320 = 320" using fl_int [of 512] fl_int [of 320] by simp_all
  let ?r = "onMsg exCtx 2000 (State exEcho) exRoom"
  have "posRef (step exCtx exTick ?r)
      = integrate (posRef exRoom) \<lparr>vx = 0, vy = 0\<rparr> (tickDt (tnow exTick) (lastTick ?r))"
    by (simp only: step_posRef v onMsg_posRef)
  also have "\<dots> = \<lparr>vx = 512, vy = 320\<rparr>"
    by (simp add: exRoom_def integrate_def clamp_def fl_0 f TILE_def WORLD_W_def WORLD_H_def)
  finally show ?thesis .
qed

theorem local_position_after_messages_witness:
  "participants exRoom (myId exCtx) = Some exMe \<and> sid exEcho = myId exCtx \<and>
   exceeds (px exMe) 40 \<and>
   participants (onMsg exCtx 2000 (State exEcho) exRoom) (myId exCtx) = Some (withLastSeen exEcho 2000) \<and>
   participants (onMsg exCtx 2000 (Move (myId exCtx) 40 50 Left) exRoom) (myId exCtx)
     = Some (exMe\<lparr>px := Some 40, py := Some 50, dir := Some Left, lastSeen := 2000\<rparr>) \<and>
   participants (step exCtx exTick (onMsg exCtx 2000 (Leave (myId exCtx)) exRoom)) (myId exCtx) = None \<and>
   participants (onMsg exCtx 2000 (State exEcho) exRoom) (myId exCtx) \<noteq> None \<and>
   map_option (\<lambda>e. (px e, py e))
       (participants (step exCtx exTick (onMsg exCtx 2000 (State exEcho) exRoom)) (myId exCtx))
     = Some (Some 512, Some 320)"
proof -
  have h: "participants exRoom (myId exCtx) = Some exMe"
    by (simp add: exRoom_def exCtx_def)
  have i: "sid exEcho = myId exCtx"
    by (simp add: exEcho_def exCtx_def)
  have f: "exceeds (px exMe) 40"
    by (simp add: exMe_def exceeds_Some fl_small_int)
  note t = local_position_after_messages [OF h, of 2000 _ _ _ _ _ _ _ _ exEcho 40 50 Left exTick]
  from t i have a: "participants (onMsg exCtx 2000 (State exEcho) exRoom) (myId exCtx)
      = Some (withLastSeen exEcho 2000)"
    by blast
  from t f have b: "participants (onMsg exCtx 2000 (Move (myId exCtx) 40 50 Left) exRoom) (myId exCtx)
     = Some (exMe\<lparr>px := Some 40, py := Some 50, dir := Some Left, lastSeen := 2000\<rparr>)"
    by blast
  from t have l: "participants (step exCtx exTick (onMsg exCtx 2000 (Leave (myId exCtx)) exRoom)) (myId exCtx) = None"
    by blast
  from a have n: "participants (onMsg exCtx 2000 (State exEcho) exRoom) (myId exCtx) \<noteq> None"
    by (simp only:) simp
  from t n have c: "map_option (\<lambda>e. (px e, py e))
       (participants (step exCtx exTick (onMsg exCtx 2000 (State exEcho) exRoom)) (myId exCtx))
     = Some (Some (vx (posRef (step exCtx exTick (onMsg exCtx 2000 (State exEcho) exRoom)))),
             Some (vy (posRef (step exCtx exTick (onMsg exCtx 2000 (State exEcho) exRoom)))))"
    by blast
  from c have c': "map_option (\<lambda>e. (px e, py e))
       (participants (step exCtx exTick (onMsg exCtx 2000 (State exEcho) exRoom)) (myId exCtx))
     = Some (Some 512, Some 320)"
    by (simp only: exRoom_echo_pos Vec.select_convs)
  from h i f a b l n c' show ?thesis by blast
qed

text \<open>
  Claim C4 as stated fails: the local entry is at (512, 320), and a \<open>join\<close>, a
  \<open>state\<close> and a \<open>move\<close> message carrying the local id each leave it at (40, 50).
\<close>

theorem local_position_counterexample:
  "map_option (\<lambda>e. (px e, py e)) (participants exRoom (myId exCtx)) = Some (Some 512, Some 320) \<and>
   sid exEcho = myId exCtx \<and>
   map_option (\<lambda>e. (px e, py e)) (participants (onMsg exCtx 2000 (Join exEcho) exRoom) (myId exCtx))
     = Some (Some 40, Some 50) \<and>
   map_option (\<lambda>e. (px e, py e)) (participants (onMsg exCtx 2000 (State exEcho) exRoom) (myId exCtx))
     = Some (Some 40, Some 50) \<and>
   map_option (\<lambda>e. (px e, py e))
       (participants (onMsg exCtx 2000 (Move (myId exCtx) 40 50 Left) exRoom) (myId exCtx))
     = Some (Some 40, Some 50)"
proof -
  have h: "participants exRoom (myId exCtx) = Some exMe"
    by (simp add: exRoom_def exCtx_def)
  have f: "exceeds (px exMe) 40"
    by (simp add: exMe_def exceeds_Some fl_small_int)
  have i: "sid exEcho = myId exCtx"
    by (simp add: exEcho_def exCtx_def)
  have a: "map_option (\<lambda>e. (px e, py e)) (participants exRoom (myId exCtx)) = Some (Some 512, Some 320)"
    by (simp add: h exMe_def)
  have j: "map_option (\<lambda>e. (px e, py e)) (participants (onMsg exCtx 2000 (Join exEcho) exRoom) (myId exCtx))
     = Some (Some 40, Some 50)"
    using h by (simp add: i Let_def storeSet_own) (simp add: withLastSeen_def exEcho_def)
  have s: "map_option (\<lambda>e. (px e, py e)) (participants (onMsg exCtx 2000 (State exEcho) exRoom) (myId exCtx))
     = Some (Some 40, Some 50)"
    using h by (simp add: i storeSet_own) (simp add: withLastSeen_def exEcho_def)
  have m: "map_option (\<lambda>e. (px e, py e))
       (participants (onMsg exCtx 2000 (Move (myId exCtx) 40 50 Left) exRoom) (myId exCtx))
     = Some (Some 40, Some 50)"
    using h f by (simp add: lookupStore_own storeSet_own)
  from a i j s m show ?thesis by blast
qed

section \<open>Delivery to handlers\<close>

lemma deliver_calls_all: "fst (deliver beh hs m w) = hs"
  by (induction hs arbitrary: w) (simp_all add: split_beta split: Outcome.splits)

lemma deliver_world:
  "snd (deliver beh hs m w) = foldl (\<lambda>w h. after (beh h m w)) w hs"
  by (induction hs arbitrary: w) (simp_all add: split_beta after_def split: Outcome.splits)

text \<open>
  Claim C10. In each of the three transports a message that reaches the delivery loop
  is handed to every handler of the set as it was when the loop started, in order: the
  world the delivery leaves is the one obtained by running each of these handlers in
  turn on the world the one before left, whether that one returned or threw. So a
  handler between two others that throws, or that changes the handler sets, keeps no
  other handler from running. For the storage transport the message reaches the loop
  when the event has a key with the channel's prefix and a value that parses, and the
  key is removed afterwards.
\<close>

theorem every_handler_called:
  "fst (supaOnBroadcast beh m w) = supaHandlers w \<and>
   snd (supaOnBroadcast beh m w) = foldl (\<lambda>w h. after (beh h m w)) w (supaHandlers w) \<and>
   (\<forall>hs. bcHandlers w key = Some hs \<longrightarrow>
      fst (bcOnMessage beh key m w) = hs \<and>
      snd (bcOnMessage beh key m w) = foldl (\<lambda>w h. after (beh h m w)) w hs) \<and>
   (\<forall>k v. k \<noteq> [] \<and> v \<noteq> [] \<and> startsWith k (key @ ''_ls_'') \<and> parse v = Some m \<longrightarrow>
      fst (lsOnStorage beh parse key (Some k) (Some v) w) = lsHandlers w \<and>
      snd (lsOnStorage beh parse key (Some k) (Some v) w) =
        (foldl (\<lambda>w h. after (beh h m w)) w (lsHandlers w))
          \<lparr>storage := (storage (foldl (\<lambda>w h. after (beh h m w)) w (lsHandlers w)))(k := None)\<rparr>) \<and>
   foldl (\<lambda>w h. after (beh h m w)) w (hs1 @ h # hs2) =
     foldl (\<lambda>w h. after (beh h m w)) (after (beh h m (foldl (\<lambda>w h. after (beh h m w)) w hs1))) hs2"
  by (simp add: supaOnBroadcast_def bcOnMessage_def lsOnStorage_def deliver_calls_all
      deliver_world split_beta)


lemma exNet_run:
  "app (snd (supaOnBroadcast exBeh ''hello'' exNet)) = [3] \<and>
   supaHandlers (snd (supaOnBroadcast exBeh ''hello'' exNet)) = [1, 2]"
  by (simp add: supaOnBroadcast_def exNet_def exBeh_def supaUnsubscribe_def bcUnsubscribe_def
      lsUnsubscribe_def setDelete_def)

theorem every_handler_called_witness:
  "exBeh 1 ''hello'' exNet = Threw exNet \<and>
   fst (supaOnBroadcast exBeh ''hello'' exNet) = [1, 2, 3] \<and>
   snd (supaOnBroadcast exBeh ''hello'' exNet)
     = foldl (\<lambda>w h. after (exBeh h ''hello'' w)) exNet [1, 2, 3] \<and>
   app (snd (supaOnBroadcast exBeh ''hello'' exNet)) = [3] \<and>
   bcHandlers exNet ''vm_room_demo'' = Some [1, 2, 3] \<and>
   fst (bcOnMessage exBeh ''vm_room_demo'' ''hello'' exNet) = [1, 2, 3] \<and>
   startsWith ''vm_room_demo_ls_17'' (''vm_room_demo'' @ ''_ls_'') \<and>
   fst (lsOnStorage exBeh Some ''vm_room_demo'' (Some ''vm_room_demo_ls_17'') (Some ''hello'') exNet)
     = [1, 2, 3]"
proof -
  note t = every_handler_called [of exBeh "''hello''" exNet "''vm_room_demo''" Some]
  have thr: "exBeh 1 ''hello'' exNet = Threw exNet"
    by (simp add: exBeh_def)
  have s: "supaHandlers exNet = [1, 2, 3]" "lsHandlers exNet = [1, 2, 3]"
    by (simp_all add: exNet_def)
  have b: "bcHandlers exNet ''vm_room_demo'' = Some [1, 2, 3]"
    by (simp add: exNet_def)
  have p: "startsWith ''vm_room_demo_ls_17'' (''vm_room_demo'' @ ''_ls_'')"
    by (simp add: startsWith_def)
  have ne: "''vm_room_demo_ls_17'' \<noteq> [] \<and> ''hello'' \<noteq> []"
    by simp
  from t have "fst (supaOnBroadcast exBeh ''hello'' exNet) = supaHandlers exNet"
    by blast
  then have a1: "fst (supaOnBroadcast exBeh ''hello'' exNet) = [1, 2, 3]"
    by (simp only: s)
  from t have "snd (supaOnBroadcast exBeh ''hello'' exNet)
     = foldl (\<lambda>w h. after (exBeh h ''hello'' w)) exNet (supaHandlers exNet)"
    by blast
  then have a1': "snd (supaOnBroadcast exBeh ''hello'' exNet)
     = foldl (\<lambda>w h. after (exBeh h ''hello'' w)) exNet [1, 2, 3]"
    by (simp only: s)
  from t b have a2: "fst (bcOnMessage exBeh ''vm_room_demo'' ''hello'' exNet) = [1, 2, 3]"
    by blast
  from t p ne have "fst (lsOnStorage exBeh Some ''vm_room_demo'' (Some ''vm_room_demo_ls_17'') (Some ''hello'') exNet)
     = lsHandlers exNet"
    by blast
  then have a3: "fst (lsOnStorage exBeh Some ''vm_room_demo'' (Some ''vm_room_demo_ls_17'') (Some ''hello'') exNet)
     = [1, 2, 3]"
    by (simp only: s)
  from thr a1 a1' exNet_run b a2 p a3 show ?thesis by blast
qed

section \<open>The movement throttle\<close>



lemma step_moves:
  "filter isMove (posted r (step c tk r)) \<noteq> [] \<longleftrightarrow> fl (tnow tk - lastSend r) > SEND_RATE_MS"
  by (simp add: step_posted)







text \<open>
  Claim C8 as stated fails across restarts: with a render between the frames, the
  loop posts \<open>move\<close> messages at 1100, 1116 and 1132 ms, three in a window of
  32 ms, the second 16 ms after the first.
\<close>

lemma frame_sends:
  "fl (tnow tk - lastSend r) > SEND_RATE_MS \<Longrightarrow>
   moveTimesE c (Frame tk # evs) r = tnow tk # moveTimesE c evs (step c tk r)"
  by (simp add: step_moves)



section \<open>Facing direction\<close>























section \<open>The voice throttle\<close>



















section \<open>Display smoothing of remote participants\<close>


























end
